theory Spec2Isabelle
  imports Main "HOL-Library.Char_ord" "HOL-Library.List_Lexorder"
begin

section \<open>Data model\<close>

text \<open>
  Datetimes are whole seconds on one time line (\<open>int\<close>): commit dates are parsed with
  \<^verbatim>\<open>%Y-%m-%dT%H:%M:%SZ\<close> and written back with the same precision. The reading of the
  clock (\<^verbatim>\<open>datetime.now()\<close>) is the parameter \<open>now\<close> of every operation that reads it.
  Chat identifiers are Python integers.
\<close>

type_synonym datetime = int
type_synonym chat = int

text \<open>The dictionary that \<^verbatim>\<open>GitHubAPI.get_latest_commits\<close> builds for one commit.\<close>

record commit =
  sha :: string
  message :: string
  author_name :: string
  author_email :: string
  date :: datetime
  url :: string
  repo_full_name :: string
  added :: nat
  removed :: nat
  modified :: nat
  files :: "string list"

text \<open>The three tables of \<^verbatim>\<open>Database.init_db\<close>; a table is the list of its rows in rowid order.\<close>

record user_row =
  u_chat_id :: chat
  u_username :: "string option"
  u_language :: string

record repo_row =
  r_id :: nat
  r_chat_id :: chat
  r_repo_full_name :: string
  r_repo_url :: string
  r_last_commit_sha :: "string option"
  r_last_check :: "datetime option"
  r_last_commit_date :: "datetime option"
  r_branch :: string

record history_row =
  h_id :: nat
  h_repo_full_name :: string
  h_commit_sha :: string
  h_commit_message :: string
  h_author_name :: string
  h_author_email :: string
  h_commit_date :: datetime
  h_commit_url :: string
  h_added :: nat
  h_removed :: nat
  h_modified :: nat
  h_detected_at :: datetime

text \<open>
  The database file. \<open>repositories_seq\<close> and \<open>commit_history_seq\<close> are the AUTOINCREMENT
  counters of the two tables (the largest id ever handed out).
\<close>

record database =
  users :: "user_row list"
  repositories :: "repo_row list"
  repositories_seq :: nat
  commit_history :: "history_row list"
  commit_history_seq :: nat

definition DEFAULT_LANGUAGE :: string where
  "DEFAULT_LANGUAGE = ''en''"

definition init_db :: database where
  "init_db = \<lparr>users = [], repositories = [], repositories_seq = 0,
              commit_history = [], commit_history_seq = 0\<rparr>"

section \<open>database.py\<close>

definition add_user :: "database \<Rightarrow> chat \<Rightarrow> string option \<Rightarrow> string \<Rightarrow> database" where
  "add_user db chat_id username language =
     (if list_ex (\<lambda>u. u_chat_id u = chat_id) (users db) then db
      else db\<lparr>users := users db @
             [\<lparr>u_chat_id = chat_id, u_username = username, u_language = language\<rparr>]\<rparr>)"

definition get_user_language :: "database \<Rightarrow> chat \<Rightarrow> string option" where
  "get_user_language db chat_id =
     (case filter (\<lambda>u. u_chat_id u = chat_id) (users db) of
        [] \<Rightarrow> None
      | u # _ \<Rightarrow> Some (u_language u))"

definition add_repository ::
  "database \<Rightarrow> datetime \<Rightarrow> chat \<Rightarrow> string \<Rightarrow> string \<Rightarrow> string \<Rightarrow> database" where
  "add_repository db now chat_id repo repo_url branch =
     (let db1 = (if list_ex (\<lambda>u. u_chat_id u = chat_id) (users db) then db
                 else db\<lparr>users := users db @
                        [\<lparr>u_chat_id = chat_id, u_username = None,
                          u_language = DEFAULT_LANGUAGE\<rparr>]\<rparr>);
          kept = filter (\<lambda>r. \<not> (r_chat_id r = chat_id \<and> r_repo_full_name r = repo))
                        (repositories db1);
          new_id = Suc (repositories_seq db1)
      in db1\<lparr>repositories := kept @
               [\<lparr>r_id = new_id, r_chat_id = chat_id, r_repo_full_name = repo,
                 r_repo_url = repo_url, r_last_commit_sha = None, r_last_check = Some now,
                 r_last_commit_date = None, r_branch = branch\<rparr>],
             repositories_seq := new_id\<rparr>)"

definition remove_repository :: "database \<Rightarrow> chat \<Rightarrow> string \<Rightarrow> database" where
  "remove_repository db chat_id repo =
     db\<lparr>repositories :=
          filter (\<lambda>r. \<not> (r_chat_id r = chat_id \<and> r_repo_full_name r = repo))
                 (repositories db)\<rparr>"

definition get_user_repos :: "database \<Rightarrow> chat \<Rightarrow> repo_row list" where
  "get_user_repos db chat_id =
     sort_key r_repo_full_name (filter (\<lambda>r. r_chat_id r = chat_id) (repositories db))"

text \<open>
  \<^verbatim>\<open>SELECT DISTINCT repo_full_name, repo_url, branch\<close>: each triple once, in the order of
  its first row.
\<close>

definition get_all_monitored_repos :: "database \<Rightarrow> (string \<times> string \<times> string) list" where
  "get_all_monitored_repos db =
     rev (remdups (rev (map (\<lambda>r. (r_repo_full_name r, r_repo_url r, r_branch r))
                            (repositories db))))"

definition get_repo_subscribers :: "database \<Rightarrow> string \<Rightarrow> chat list" where
  "get_repo_subscribers db repo =
     map r_chat_id (filter (\<lambda>r. r_repo_full_name r = repo) (repositories db))"

definition update_last_commit ::
  "database \<Rightarrow> datetime \<Rightarrow> string \<Rightarrow> string \<Rightarrow> datetime \<Rightarrow> database" where
  "update_last_commit db now repo commit_sha commit_date =
     db\<lparr>repositories :=
          map (\<lambda>r. if r_repo_full_name r = repo
                    then r\<lparr>r_last_commit_sha := Some commit_sha,
                           r_last_commit_date := Some commit_date,
                           r_last_check := Some now\<rparr>
                    else r)
              (repositories db)\<rparr>"

definition log_commit :: "datetime \<Rightarrow> database \<Rightarrow> commit \<Rightarrow> database" where
  "log_commit now db commit_data =
     (let new_id = Suc (commit_history_seq db)
      in db\<lparr>commit_history := commit_history db @
               [\<lparr>h_id = new_id,
                 h_repo_full_name = repo_full_name commit_data,
                 h_commit_sha = sha commit_data,
                 h_commit_message = message commit_data,
                 h_author_name = author_name commit_data,
                 h_author_email = author_email commit_data,
                 h_commit_date = date commit_data,
                 h_commit_url = url commit_data,
                 h_added = added commit_data,
                 h_removed = removed commit_data,
                 h_modified = modified commit_data,
                 h_detected_at = now\<rparr>],
            commit_history_seq := new_id\<rparr>)"

definition is_commit_logged :: "database \<Rightarrow> string \<Rightarrow> string \<Rightarrow> bool" where
  "is_commit_logged db repo commit_sha =
     list_ex (\<lambda>h. h_repo_full_name h = repo \<and> h_commit_sha h = commit_sha) (commit_history db)"

text \<open>
  \<^verbatim>\<open>fetchone()\<close> reads the first row of the repository; a NULL date, like no row at all,
  gives \<^verbatim>\<open>None\<close>. The stored text is the one \<open>update_last_commit\<close> wrote, which parses back
  to the same datetime.
\<close>

definition get_last_commit_date :: "database \<Rightarrow> string \<Rightarrow> datetime option" where
  "get_last_commit_date db repo =
     (case filter (\<lambda>r. r_repo_full_name r = repo) (repositories db) of
        [] \<Rightarrow> None
      | r # _ \<Rightarrow> r_last_commit_date r)"

section \<open>github_api.py\<close>

text \<open>
  The hosting API is a parameter: what it answers to the commit-list request for a
  repository, a branch and the \<^verbatim>\<open>since\<close> parameter (absent when the caller passes none).
  An answer is a failure (a status other than 200, or an exception of the HTTP library) or
  the JSON list of status 200.
\<close>

datatype fetch_error =
  NotFound | EmptyRepository | Forbidden | OtherStatus nat
  | Timeout | ConnectionError | RequestException | Unexpected

text \<open>
  One element of the JSON list. \<open>Malformed\<close> is an element with a missing field (KeyError);
  \<open>raw_date = None\<close> is a date text that \<^verbatim>\<open>strptime\<close> rejects (ValueError);
  \<open>raw_detail\<close> is the list of (status, filename) of the per-commit detail request, \<open>None\<close>
  when that request fails or carries no \<^verbatim>\<open>files\<close>.
\<close>

record raw_commit =
  raw_sha :: string
  raw_message :: string
  raw_author_name :: string
  raw_author_email :: string
  raw_date :: "datetime option"
  raw_html_url :: string
  raw_detail :: "(string \<times> string) list option"

datatype raw_entry = Malformed | Entry raw_commit

type_synonym remote = "string \<Rightarrow> string \<Rightarrow> datetime option \<Rightarrow> fetch_error + raw_entry list"

definition isspace :: "char \<Rightarrow> bool" where
  "isspace c = ((of_char c :: nat) \<in> {9, 10, 11, 12, 13, 28, 29, 30, 31, 32})"

definition strip :: "string \<Rightarrow> string" where
  "strip s = rev (dropWhile isspace (rev (dropWhile isspace s)))"

definition count_status :: "string \<Rightarrow> (string \<times> string) list option \<Rightarrow> nat" where
  "count_status st detail =
     (case detail of None \<Rightarrow> 0 | Some fs \<Rightarrow> length (filter (\<lambda>f. fst f = st) fs))"

definition parse_commit :: "string \<Rightarrow> raw_entry \<Rightarrow> commit option" where
  "parse_commit repo e =
     (case e of
        Malformed \<Rightarrow> None
      | Entry c \<Rightarrow>
          (case raw_date c of
             None \<Rightarrow> None
           | Some d \<Rightarrow>
               Some \<lparr>sha = raw_sha c,
                     message = strip (raw_message c),
                     author_name = raw_author_name c,
                     author_email = raw_author_email c,
                     date = d,
                     url = raw_html_url c,
                     repo_full_name = repo,
                     added = count_status ''added'' (raw_detail c),
                     removed = count_status ''removed'' (raw_detail c),
                     modified = count_status ''modified'' (raw_detail c),
                     files = (case raw_detail c of None \<Rightarrow> []
                              | Some fs \<Rightarrow> map snd (take 5 fs))\<rparr>))"

definition get_latest_commits ::
  "remote \<Rightarrow> string \<Rightarrow> string \<Rightarrow> datetime option \<Rightarrow> commit list" where
  "get_latest_commits remote repo branch since =
     (case remote repo branch since of
        Inl err \<Rightarrow> []
      | Inr commits \<Rightarrow> List.map_filter (parse_commit repo) commits)"

section \<open>monitor.py\<close>

text \<open>
  What \<^verbatim>\<open>_format_commit_message\<close> puts into a message: the fields handed to the template
  and the change lines, one for each count above zero. The template text itself comes from
  the translation file and is not part of the model.
\<close>

record commit_text =
  t_repo_full_name :: string
  t_commit_message :: string
  t_author_name :: string
  t_commit_time :: datetime
  t_short_hash :: string
  t_changes :: "(string \<times> nat) list"
  t_commit_url :: string
  t_language :: "string option"

definition format_commit_message :: "string \<Rightarrow> commit \<Rightarrow> string option \<Rightarrow> commit_text" where
  "format_commit_message repo c language =
     \<lparr>t_repo_full_name = repo,
      t_commit_message = (if length (message c) > 300 then take 297 (message c) @ ''...''
                          else message c),
      t_author_name = author_name c,
      t_commit_time = date c,
      t_short_hash = take 7 (sha c),
      t_changes = (if added c > 0 then [(''added'', added c)] else [])
                  @ (if removed c > 0 then [(''removed'', removed c)] else [])
                  @ (if modified c > 0 then [(''modified'', modified c)] else []),
      t_commit_url = url c,
      t_language = language\<rparr>"

text \<open>
  A message handed to \<^verbatim>\<open>bot.send_message\<close>: the text of one commit, together with the
  commit the formatter was called on, or the summary with its \<^verbatim>\<open>total_commits\<close> and
  \<^verbatim>\<open>extra_count\<close>.
\<close>

datatype notification =
  CommitNotification commit commit_text
  | SummaryNotification string nat nat "string option"

text \<open>
  The delivery channel is a parameter: \<open>sink chat m\<close> is \<open>True\<close> when \<^verbatim>\<open>send_message\<close>
  returns and \<open>False\<close> when it raises. A send attempt is recorded with its outcome.
\<close>

type_synonym sink = "chat \<Rightarrow> notification \<Rightarrow> bool"
type_synonym attempt = "chat \<times> notification \<times> bool"

definition send_message :: "sink \<Rightarrow> chat \<Rightarrow> notification \<Rightarrow> attempt" where
  "send_message snk chat_id m = (chat_id, m, snk chat_id m)"

definition send_commit_notification ::
  "sink \<Rightarrow> chat \<Rightarrow> string \<Rightarrow> commit list \<Rightarrow> string option \<Rightarrow> attempt list" where
  "send_commit_notification snk chat_id repo commits language =
     (if commits = [] then []
      else map (\<lambda>c. send_message snk chat_id
                       (CommitNotification c (format_commit_message repo c language)))
               (take 5 commits)
           @ (if length commits > 5
              then [send_message snk chat_id
                      (SummaryNotification repo (length commits) (length commits - 5) language)]
              else []))"

text \<open>
  \<^verbatim>\<open>commits.sort(key=lambda x: x['date'], reverse=True)\<close>: a stable sort, newest first;
  commits of equal date keep the order they had.
\<close>

definition sort_newest_first :: "commit list \<Rightarrow> commit list" where
  "sort_newest_first commits = sort_key (\<lambda>c. - date c) commits"

definition process_new_commits ::
  "database \<Rightarrow> sink \<Rightarrow> datetime \<Rightarrow> string \<Rightarrow> commit list \<Rightarrow> database \<times> attempt list" where
  "process_new_commits db snk now repo commits0 =
     (let commits = sort_newest_first commits0;
          db1 = foldl (log_commit now) db commits
      in case commits of
           [] \<Rightarrow> (db1, [])
         | latest_commit # _ \<Rightarrow>
             (let db2 = update_last_commit db1 now repo (sha latest_commit) (date latest_commit);
                  subscribers = get_repo_subscribers db2 repo
              in (db2,
                  concat (map (\<lambda>chat_id.
                                 send_commit_notification snk chat_id repo commits
                                   (get_user_language db2 chat_id))
                              subscribers))))"

text \<open>
  The states of the database while \<open>process_new_commits\<close> runs, one after each statement that
  writes: the state it starts in, the state after each \<open>log_commit\<close>, then the state after
  \<open>update_last_commit\<close>.
\<close>

definition process_new_commits_states ::
  "database \<Rightarrow> datetime \<Rightarrow> string \<Rightarrow> commit list \<Rightarrow> database list" where
  "process_new_commits_states db now repo commits0 =
     (let commits = sort_newest_first commits0
      in map (\<lambda>k. foldl (log_commit now) db (take k commits)) [0..<Suc (length commits)]
         @ (case commits of
              [] \<Rightarrow> []
            | latest_commit # _ \<Rightarrow>
                [update_last_commit (foldl (log_commit now) db commits) now repo
                   (sha latest_commit) (date latest_commit)]))"

text \<open>The lower bound of the request: the stored date, or 24 hours before now.\<close>

definition since_bound :: "database \<Rightarrow> datetime \<Rightarrow> string \<Rightarrow> datetime" where
  "since_bound db now repo =
     (case get_last_commit_date db repo of
        None \<Rightarrow> now - 24 * 3600
      | Some last_commit_date \<Rightarrow> last_commit_date)"

text \<open>The commits of the answer that \<open>check_repository\<close> keeps (its \<^verbatim>\<open>new_commits\<close>).\<close>

definition new_commits_of :: "database \<Rightarrow> string \<Rightarrow> commit list \<Rightarrow> commit list" where
  "new_commits_of db repo commits = filter (\<lambda>c. \<not> is_commit_logged db repo (sha c)) commits"

definition check_repository ::
  "database \<Rightarrow> remote \<Rightarrow> sink \<Rightarrow> datetime \<Rightarrow> string \<Rightarrow> string \<Rightarrow> database \<times> attempt list" where
  "check_repository db rem snk now repo branch =
     (let commits = get_latest_commits rem repo branch (Some (since_bound db now repo))
      in if commits = [] then (db, [])
         else (let new_commits = new_commits_of db repo commits
               in if new_commits \<noteq> [] then process_new_commits db snk now repo new_commits
                  else (db, [])))"

text \<open>The loop of \<open>check_all_repositories\<close> over the repositories read at its start.\<close>

fun check_repositories ::
  "database \<Rightarrow> remote \<Rightarrow> sink \<Rightarrow> datetime \<Rightarrow> (string \<times> string \<times> string) list
   \<Rightarrow> database \<times> attempt list" where
  "check_repositories db rem snk now [] = (db, [])"
| "check_repositories db rem snk now ((repo, repo_url, branch) # repos) =
     (let (db1, sent1) = check_repository db rem snk now repo branch;
          (db2, sent2) = check_repositories db1 rem snk now repos
      in (db2, sent1 @ sent2))"

definition check_all_repositories ::
  "database \<Rightarrow> remote \<Rightarrow> sink \<Rightarrow> datetime \<Rightarrow> database \<times> attempt list" where
  "check_all_repositories db rem snk now =
     check_repositories db rem snk now (get_all_monitored_repos db)"

section \<open>bot.py\<close>

text \<open>
  \<open>handle_add\<close> from the arguments of the command on: the words of the message text, the
  list of administrators and the answer of the hosting API to the repository request
  (\<open>None\<close> when it fails; otherwise the default branch, if the answer has one, and the URL).
\<close>

datatype add_outcome = NotAdmin | MissingArgument | InvalidFormat | RepoNotFound | RepoAdded

definition bot_get_user_language :: "database \<Rightarrow> chat \<Rightarrow> database \<times> string" where
  "bot_get_user_language db chat_id =
     (case get_user_language db chat_id of
        None \<Rightarrow> (add_user db chat_id None DEFAULT_LANGUAGE, DEFAULT_LANGUAGE)
      | Some language \<Rightarrow> (db, language))"

definition handle_add ::
  "database \<Rightarrow> chat list \<Rightarrow> (string \<Rightarrow> (string option \<times> string) option) \<Rightarrow> remote \<Rightarrow> datetime
   \<Rightarrow> chat \<Rightarrow> string list \<Rightarrow> database \<times> add_outcome" where
  "handle_add db admins repo_info_of rem now chat_id args =
     (if chat_id \<notin> set admins then (db, NotAdmin)
      else (let (db0, language) = bot_get_user_language db chat_id
            in if length args < 2 then (db0, MissingArgument)
               else (let repo = strip (args ! 1)
                     in if count_list repo (CHR ''/'') \<noteq> 1 then (db0, InvalidFormat)
                        else (case repo_info_of repo of
                                None \<Rightarrow> (db0, RepoNotFound)
                              | Some (default_branch_opt, repo_url) \<Rightarrow>
                                  (let default_branch = (case default_branch_opt of
                                                           None \<Rightarrow> ''main'' | Some b \<Rightarrow> b);
                                       db1 = add_repository db0 now chat_id repo repo_url
                                               default_branch;
                                       commits = get_latest_commits rem repo default_branch None
                                   in case commits of
                                        [] \<Rightarrow> (db1, RepoAdded)
                                      | latest_commit # _ \<Rightarrow>
                                          (log_commit now
                                             (update_last_commit db1 now repo
                                                (sha latest_commit) (date latest_commit))
                                             latest_commit,
                                           RepoAdded))))))"

section \<open>Observations and example data\<close>

text \<open>The commits that were handed to the formatter, read off the list of send attempts.\<close>

definition commits_notified :: "attempt list \<Rightarrow> commit list" where
  "commits_notified sent =
     concat (map (\<lambda>(chat_id, m, delivered).
                    case m of CommitNotification c t \<Rightarrow> [c] | SummaryNotification r n k l \<Rightarrow> [])
                 sent)"

text \<open>A repository with two subscribers, and answers of the hosting API for it.\<close>

definition raw_example :: "string \<Rightarrow> datetime \<Rightarrow> raw_entry" where
  "raw_example h d =
     Entry \<lparr>raw_sha = h, raw_message = ''fix the parser '', raw_author_name = ''Dana'',
            raw_author_email = ''dana@example.org'', raw_date = Some d,
            raw_html_url = ''https://github.com/acme/widgets/commit/'' @ h,
            raw_detail = Some [(''added'', ''a.py''), (''modified'', ''b.py'')]\<rparr>"

definition remote_example :: "raw_entry list \<Rightarrow> remote" where
  "remote_example entries repo branch since =
     (if repo = ''acme/widgets'' then Inr entries else Inl NotFound)"

definition db_example :: database where
  "db_example =
     add_repository
       (add_repository init_db 0 11 ''acme/widgets'' ''https://github.com/acme/widgets'' ''main'')
       0 22 ''acme/widgets'' ''https://github.com/acme/widgets'' ''main''"

definition sink_ok :: sink where
  "sink_ok chat_id m = True"

definition db_seen :: database where
  "db_seen = fst (check_repository db_example (remote_example [raw_example ''c1'' 1000])
                    sink_ok 3000 ''acme/widgets'' ''main'')"

definition summaries_sent :: "attempt list \<Rightarrow> (string \<times> nat \<times> nat) list" where
  "summaries_sent sent =
     concat (map (\<lambda>(chat_id, m, delivered).
                    case m of CommitNotification c t \<Rightarrow> []
                            | SummaryNotification r n k l \<Rightarrow> [(r, n, k)])
                 sent)"

definition commit_example :: "string \<Rightarrow> datetime \<Rightarrow> commit" where
  "commit_example h d =
     \<lparr>sha = h, message = ''fix the parser'', author_name = ''Dana'',
      author_email = ''dana@example.org'', date = d,
      url = ''https://github.com/acme/widgets/commit/'' @ h,
      repo_full_name = ''acme/widgets'', added = 1, removed = 0, modified = 1,
      files = [''a.py'', ''b.py'']\<rparr>"

definition seven_commits :: "commit list" where
  "seven_commits = map (\<lambda>n. commit_example (replicate n (CHR ''a'')) (int n)) [1..<8]"

text \<open>The rows of one repository, and the key of a row under the table's UNIQUE constraint.\<close>

definition rows_of :: "database \<Rightarrow> string \<Rightarrow> repo_row list" where
  "rows_of db repo = filter (\<lambda>r. r_repo_full_name r = repo) (repositories db)"

definition row_key :: "repo_row \<Rightarrow> chat \<times> string" where
  "row_key r = (r_chat_id r, r_repo_full_name r)"

text \<open>
  The choice the specification words describe: the newest commit by date, ties between equal
  dates broken by the lexical order of the hash (\<open>larger_wins\<close> tells which end of that order
  wins).
\<close>

definition newest_by_date_then_hash :: "bool \<Rightarrow> commit list \<Rightarrow> commit option" where
  "newest_by_date_then_hash larger_wins commits =
     (case commits of
        [] \<Rightarrow> None
      | c # cs \<Rightarrow>
          Some (foldl (\<lambda>best x.
                         if date best < date x
                            \<or> (date best = date x
                                \<and> (if larger_wins then sha best < sha x else sha x < sha best))
                         then x else best)
                      c cs))"

text \<open>An answer of the hosting API honours the bound when no commit in it is older.\<close>

definition honours_since :: "remote \<Rightarrow> string \<Rightarrow> string \<Rightarrow> datetime \<Rightarrow> bool" where
  "honours_since rem repo branch bound =
     list_all (\<lambda>c. bound \<le> date c) (get_latest_commits rem repo branch (Some bound))"

definition remote_since :: "raw_entry list \<Rightarrow> remote" where
  "remote_since entries repo branch since =
     (if repo = ''acme/widgets''
      then Inr (filter (\<lambda>e. case e of Malformed \<Rightarrow> True
                             | Entry c \<Rightarrow> (case (since, raw_date c) of
                                             (Some b, Some d) \<Rightarrow> b \<le> d | _ \<Rightarrow> True))
                       entries)
      else Inl NotFound)"

text \<open>A delivery channel that raises for one subscriber and delivers to everyone else.\<close>

definition sink_failing_for :: "chat \<Rightarrow> sink" where
  "sink_failing_for x chat_id m = (chat_id \<noteq> x)"

text \<open>A database with a second repository, which the example answers do not know.\<close>

definition db_two :: database where
  "db_two =
     add_repository
       (add_repository
          (add_repository init_db 0 11 ''acme/broken'' ''https://github.com/acme/broken'' ''main'')
          0 11 ''acme/widgets'' ''https://github.com/acme/widgets'' ''main'')
       0 22 ''acme/widgets'' ''https://github.com/acme/widgets'' ''main''"

text \<open>What was attempted, without the outcome.\<close>

definition attempted :: "attempt list \<Rightarrow> (chat \<times> notification) list" where
  "attempted sent = map (\<lambda>(chat_id, m, delivered). (chat_id, m)) sent"

text \<open>
  Sweeps that follow one another, each with the answers of the hosting API, the delivery
  channel and the clock of its own time.
\<close>

fun later_sweeps :: "database \<Rightarrow> (remote \<times> sink \<times> datetime) list \<Rightarrow> database \<times> attempt list" where
  "later_sweeps db [] = (db, [])"
| "later_sweeps db ((rem, snk, now) # sweeps) =
     (let (db1, sent1) = check_all_repositories db rem snk now;
          (db2, sent2) = later_sweeps db1 sweeps
      in (db2, sent1 @ sent2))"

definition repo_info_example :: "string \<Rightarrow> (string option \<times> string) option" where
  "repo_info_example repo =
     (if repo = ''acme/widgets'' then Some (Some ''main'', ''https://github.com/acme/widgets'')
      else None)"

definition db_added :: database where
  "db_added =
     fst (handle_add init_db [11] repo_info_example
            (remote_since [raw_example ''c2'' 2000, raw_example ''c1'' 1000]) 3000 11
            [''/add'', ''acme/widgets''])"

section \<open>Auxiliary facts\<close>

lemma log_commit_fields [simp]:
  "repositories (log_commit now db c) = repositories db"
  "users (log_commit now db c) = users db"
  "repositories_seq (log_commit now db c) = repositories_seq db"
  by (simp_all add: log_commit_def Let_def)

lemma foldl_log_commit_fields [simp]:
  "repositories (foldl (log_commit now) db cs) = repositories db"
  "users (foldl (log_commit now) db cs) = users db"
  by (induction cs arbitrary: db) simp_all

lemma is_commit_logged_log_commit:
  "is_commit_logged (log_commit now db c) r h \<longleftrightarrow>
     is_commit_logged db r h \<or> (repo_full_name c = r \<and> sha c = h)"
  by (auto simp: is_commit_logged_def log_commit_def Let_def list_ex_iff)

lemma is_commit_logged_foldl:
  "is_commit_logged (foldl (log_commit now) db cs) r h \<longleftrightarrow>
     is_commit_logged db r h \<or> (\<exists>c \<in> set cs. repo_full_name c = r \<and> sha c = h)"
  by (induction cs arbitrary: db) (auto simp: is_commit_logged_log_commit)

lemma update_last_commit_fields [simp]:
  "commit_history (update_last_commit db now r s d) = commit_history db"
  "users (update_last_commit db now r s d) = users db"
  "commit_history_seq (update_last_commit db now r s d) = commit_history_seq db"
  by (simp_all add: update_last_commit_def)

lemma is_commit_logged_update [simp]:
  "is_commit_logged (update_last_commit db now r s d) r' h = is_commit_logged db r' h"
  by (simp add: is_commit_logged_def)

lemma subscribers_of_updated_rows:
  "map r_chat_id (filter (\<lambda>r. r_repo_full_name r = r')
      (map (\<lambda>r. if r_repo_full_name r = r0
                then r\<lparr>r_last_commit_sha := Some s, r_last_commit_date := Some d,
                       r_last_check := Some now\<rparr>
                else r) rows))
   = map r_chat_id (filter (\<lambda>r. r_repo_full_name r = r') rows)"
  by (induction rows) auto

lemma get_repo_subscribers_update [simp]:
  "get_repo_subscribers (update_last_commit db now r s d) r' = get_repo_subscribers db r'"
  by (simp add: get_repo_subscribers_def update_last_commit_def subscribers_of_updated_rows)

lemma set_sort_newest_first [simp]: "set (sort_newest_first cs) = set cs"
  by (simp add: sort_newest_first_def)

lemma length_sort_newest_first [simp]: "length (sort_newest_first cs) = length cs"
  by (simp add: sort_newest_first_def)

lemma sort_newest_first_empty [simp]: "sort_newest_first [] = []"
  by (simp add: sort_newest_first_def)

lemma sort_newest_first_Nil [simp]: "sort_newest_first cs = [] \<longleftrightarrow> cs = []"
  by (metis length_sort_newest_first length_0_conv)

lemma in_set_map_filter:
  "x \<in> set (List.map_filter f xs) \<longleftrightarrow> (\<exists>y \<in> set xs. f y = Some x)"
  by (induction xs) (auto split: option.splits)

lemma parse_commit_repo: "parse_commit repo e = Some c \<Longrightarrow> repo_full_name c = repo"
  by (auto simp: parse_commit_def split: raw_entry.splits option.splits)

lemma get_latest_commits_repo:
  "c \<in> set (get_latest_commits rem repo branch since) \<Longrightarrow> repo_full_name c = repo"
  by (auto simp: get_latest_commits_def in_set_map_filter parse_commit_repo split: sum.splits)

lemma get_user_language_update [simp]:
  "get_user_language (update_last_commit db now r s d) ch = get_user_language db ch"
  by (simp add: get_user_language_def)

lemma get_user_language_foldl [simp]:
  "get_user_language (foldl (log_commit now) db cs) ch = get_user_language db ch"
  by (simp add: get_user_language_def)

lemma get_repo_subscribers_foldl [simp]:
  "get_repo_subscribers (foldl (log_commit now) db cs) r = get_repo_subscribers db r"
  by (simp add: get_repo_subscribers_def)

lemma commits_notified_append [simp]:
  "commits_notified (xs @ ys) = commits_notified xs @ commits_notified ys"
  by (simp add: commits_notified_def)

lemma commits_notified_Nil [simp]: "commits_notified [] = []"
  by (simp add: commits_notified_def)

lemma commits_notified_send:
  "set (commits_notified (send_commit_notification snk ch repo cs lang)) = set (take 5 cs)"
  by (auto simp: commits_notified_def send_commit_notification_def send_message_def)

lemma commits_notified_concat:
  "set (commits_notified (concat xss)) = (\<Union>xs \<in> set xss. set (commits_notified xs))"
  by (induction xss) auto

lemma commits_notified_process:
  "set (commits_notified (snd (process_new_commits db snk now repo cs))) \<subseteq> set cs"
proof -
  have "set (take 5 (sort_newest_first cs)) \<subseteq> set cs"
    using set_take_subset [of 5 "sort_newest_first cs"] by simp
  then show ?thesis
    by (auto simp: process_new_commits_def Let_def commits_notified_concat commits_notified_send
             split: list.splits)
qed

lemma commit_history_process:
  "commit_history (fst (process_new_commits db snk now repo cs))
     = commit_history (foldl (log_commit now) db (sort_newest_first cs))"
  by (cases "sort_newest_first cs") (simp_all add: process_new_commits_def Let_def)

lemma is_commit_logged_cong:
  "commit_history d = commit_history d' \<Longrightarrow> is_commit_logged d r h = is_commit_logged d' r h"
  by (simp add: is_commit_logged_def)

lemma is_commit_logged_process:
  "is_commit_logged (fst (process_new_commits db snk now repo cs)) r h \<longleftrightarrow>
     is_commit_logged db r h \<or> (\<exists>c \<in> set cs. repo_full_name c = r \<and> sha c = h)"
  using is_commit_logged_cong [OF commit_history_process, of db snk now repo cs r h]
  by (simp add: is_commit_logged_foldl)

lemma new_commits_of_Nil [simp]: "new_commits_of db repo [] = []"
  by (simp add: new_commits_of_def)

lemma commits_notified_check:
  "set (commits_notified (snd (check_repository db rem snk now repo branch)))
     \<subseteq> set (new_commits_of db repo
              (get_latest_commits rem repo branch (Some (since_bound db now repo))))"
  using commits_notified_process
  by (simp add: check_repository_def Let_def)

lemma is_commit_logged_check:
  "is_commit_logged (fst (check_repository db rem snk now repo branch)) r h \<longleftrightarrow>
     is_commit_logged db r h \<or>
     (\<exists>c \<in> set (new_commits_of db repo
                 (get_latest_commits rem repo branch (Some (since_bound db now repo)))).
        repo_full_name c = r \<and> sha c = h)"
  by (auto simp: check_repository_def Let_def is_commit_logged_process)

lemma fetched_logged_after_check:
  assumes "c \<in> set (get_latest_commits rem repo branch (Some (since_bound db now repo)))"
  shows "is_commit_logged (fst (check_repository db rem snk now repo branch)) repo (sha c)"
proof (cases "is_commit_logged db repo (sha c)")
  case True
  then show ?thesis by (simp add: is_commit_logged_check)
next
  case False
  with assms have "c \<in> set (new_commits_of db repo
       (get_latest_commits rem repo branch (Some (since_bound db now repo))))"
    by (simp add: new_commits_of_def)
  moreover have "repo_full_name c = repo"
    using assms by (rule get_latest_commits_repo)
  ultimately show ?thesis
    unfolding is_commit_logged_check by blast
qed

lemma check_repository_all_logged:
  assumes "\<forall>c \<in> set (get_latest_commits rem repo branch (Some (since_bound db now repo))).
             is_commit_logged db repo (sha c)"
  shows "check_repository db rem snk now repo branch = (db, [])"
proof -
  have "new_commits_of db repo
          (get_latest_commits rem repo branch (Some (since_bound db now repo))) = []"
    using assms by (simp add: new_commits_of_def)
  then show ?thesis by (simp add: check_repository_def Let_def)
qed

lemma commits_notified_individual:
  "commits_notified (map (\<lambda>c. send_message snk ch (CommitNotification c (f c))) cs) = cs"
  by (induction cs) (simp_all add: commits_notified_def send_message_def)

lemma summaries_sent_individual:
  "summaries_sent (map (\<lambda>c. send_message snk ch (CommitNotification c (f c))) cs) = []"
  by (induction cs) (simp_all add: summaries_sent_def send_message_def)

lemma summaries_sent_append:
  "summaries_sent (xs @ ys) = summaries_sent xs @ summaries_sent ys"
  by (simp add: summaries_sent_def)

lemma commits_notified_send_eq:
  "commits_notified (send_commit_notification snk ch repo cs lang) = take 5 cs"
  by (simp add: send_commit_notification_def commits_notified_individual)
     (simp add: commits_notified_def send_message_def)

lemma summaries_sent_send_eq:
  "summaries_sent (send_commit_notification snk ch repo cs lang)
     = (if length cs > 5 then [(repo, length cs, length cs - 5)] else [])"
  by (simp add: send_commit_notification_def summaries_sent_append summaries_sent_individual)
     (simp add: summaries_sent_def send_message_def)

lemma add_repository_rows:
  "repositories (add_repository db now chat_id repo repo_url branch)
     = filter (\<lambda>r. \<not> (r_chat_id r = chat_id \<and> r_repo_full_name r = repo)) (repositories db)
       @ [\<lparr>r_id = Suc (repositories_seq db), r_chat_id = chat_id, r_repo_full_name = repo,
           r_repo_url = repo_url, r_last_commit_sha = None, r_last_check = Some now,
           r_last_commit_date = None, r_branch = branch\<rparr>]"
  by (simp add: add_repository_def Let_def)

lemma distinct_map_filter_keys:
  "distinct (map f xs) \<Longrightarrow> distinct (map f (filter P xs))"
  by (induction xs) auto

lemma filter_Cons_find: "filter P xs = x # ys \<Longrightarrow> find P xs = Some x"
  by (induction xs) (auto split: if_splits)

lemma sort_newest_first_head:
  assumes "sort_newest_first cs = l # rest"
  shows "l \<in> set cs" and "\<forall>c \<in> set cs. date c \<le> date l"
    and "find (\<lambda>c. date c = date l) cs = Some l"
proof -
  let ?f = "\<lambda>c. - date c"
  have s: "sort_key ?f cs = l # rest"
    using assms by (simp add: sort_newest_first_def)
  have "set (sort_key ?f cs) = set cs" by simp
  with s have mem: "set cs = insert l (set rest)" by simp
  then show "l \<in> set cs" by simp
  have "sorted (map ?f (sort_key ?f cs))" by (rule sorted_sort_key)
  with s have "\<forall>c \<in> set rest. ?f l \<le> ?f c" by simp
  with mem show "\<forall>c \<in> set cs. date c \<le> date l" by auto
  have "filter (\<lambda>c. ?f c = ?f l) (sort_key ?f cs) = filter (\<lambda>c. ?f c = ?f l) cs"
    by (rule sort_key_stable)
  with s have "filter (\<lambda>c. date c = date l) cs = l # filter (\<lambda>c. date c = date l) rest"
    by simp
  then show "find (\<lambda>c. date c = date l) cs = Some l"
    by (rule filter_Cons_find)
qed

lemma repositories_process:
  "sort_newest_first cs = l # rest \<Longrightarrow>
   repositories (fst (process_new_commits db snk now repo cs))
     = repositories (update_last_commit db now repo (sha l) (date l))"
  by (simp add: process_new_commits_def Let_def update_last_commit_def)

lemma updated_rows_watermark:
  assumes "r \<in> set (filter (\<lambda>x. r_repo_full_name x = repo)
      (map (\<lambda>x. if r_repo_full_name x = repo
                then x\<lparr>r_last_commit_sha := Some s, r_last_commit_date := Some d,
                       r_last_check := Some now\<rparr>
                else x) rows))"
  shows "r_last_commit_sha r = Some s \<and> r_last_commit_date r = Some d \<and> r_last_check r = Some now"
proof -
  let ?f = "\<lambda>x. if r_repo_full_name x = repo
                then x\<lparr>r_last_commit_sha := Some s, r_last_commit_date := Some d,
                       r_last_check := Some now\<rparr>
                else x"
  from assms have "r \<in> ?f ` set rows" and name: "r_repo_full_name r = repo"
    by (simp_all only: set_filter set_map mem_Collect_eq)
  then obtain x where r: "r = ?f x" by blast
  show ?thesis
  proof (cases "r_repo_full_name x = repo")
    case True
    with r have "r = x\<lparr>r_last_commit_sha := Some s, r_last_commit_date := Some d,
                       r_last_check := Some now\<rparr>"
      by (simp only: simp_thms if_True)
    then show ?thesis by simp
  next
    case False
    with r have "r = x" by (simp only: if_False)
    with name False show ?thesis by simp
  qed
qed

lemma rows_of_update_last_commit:
  assumes "r \<in> set (rows_of (update_last_commit db now repo s d) repo)"
  shows "r_last_commit_sha r = Some s \<and> r_last_commit_date r = Some d
         \<and> r_last_check r = Some now"
proof -
  have "rows_of (update_last_commit db now repo s d) repo
          = filter (\<lambda>x. r_repo_full_name x = repo)
              (map (\<lambda>x. if r_repo_full_name x = repo
                        then x\<lparr>r_last_commit_sha := Some s, r_last_commit_date := Some d,
                               r_last_check := Some now\<rparr>
                        else x) (repositories db))"
    by (simp add: rows_of_def update_last_commit_def)
  with assms show ?thesis
    by (simp only: updated_rows_watermark)
qed

lemma rows_of_cong: "repositories d = repositories d' \<Longrightarrow> rows_of d repo = rows_of d' repo"
  by (simp add: rows_of_def)

lemma process_new_commits_fst:
  "fst (process_new_commits db snk now repo cs)
     = (case sort_newest_first cs of
          [] \<Rightarrow> foldl (log_commit now) db (sort_newest_first cs)
        | l # rest \<Rightarrow> update_last_commit (foldl (log_commit now) db (sort_newest_first cs))
                        now repo (sha l) (date l))"
  by (cases "sort_newest_first cs") (simp_all add: process_new_commits_def Let_def)

lemma last_states:
  "last (process_new_commits_states db now repo cs) = fst (process_new_commits db snk now repo cs)"
proof (cases "sort_newest_first cs")
  case Nil
  then show ?thesis
    by (simp add: process_new_commits_states_def process_new_commits_fst Let_def)
next
  case (Cons l rest)
  then show ?thesis
    by (simp add: process_new_commits_states_def process_new_commits_fst Let_def
             del: upt_Suc)
qed

lemma states_cases:
  assumes "s \<in> set (process_new_commits_states db now repo cs)"
  shows "(\<exists>k \<le> length cs. s = foldl (log_commit now) db (take k (sort_newest_first cs)))
         \<or> (\<exists>l rest. sort_newest_first cs = l # rest
                \<and> s = update_last_commit (foldl (log_commit now) db (sort_newest_first cs))
                        now repo (sha l) (date l))"
proof (cases "sort_newest_first cs")
  case Nil
  with assms show ?thesis
    by (auto simp: process_new_commits_states_def Let_def)
next
  case (Cons l rest)
  from assms have "s \<in> (\<lambda>k. foldl (log_commit now) db (take k (sort_newest_first cs)))
                        ` set [0..<Suc (length (sort_newest_first cs))]
                   \<or> s = update_last_commit (foldl (log_commit now) db (sort_newest_first cs))
                        now repo (sha l) (date l)"
    unfolding process_new_commits_states_def Let_def Cons [symmetric]
    by (simp add: Cons del: upt_Suc) blast
  then show ?thesis
  proof
    assume "s \<in> (\<lambda>k. foldl (log_commit now) db (take k (sort_newest_first cs)))
                        ` set [0..<Suc (length (sort_newest_first cs))]"
    then obtain k where "k < Suc (length cs)"
      and "s = foldl (log_commit now) db (take k (sort_newest_first cs))"
      unfolding set_upt image_iff by auto
    then show ?thesis by (intro disjI1 exI [of _ k]) simp
  next
    assume "s = update_last_commit (foldl (log_commit now) db (sort_newest_first cs))
                        now repo (sha l) (date l)"
    with Cons show ?thesis by blast
  qed
qed

lemma check_repository_depends_on_answer:
  assumes "rem repo branch (Some (since_bound db now repo))
             = rem' repo branch (Some (since_bound db now repo))"
  shows "check_repository db rem snk now repo branch
           = check_repository db rem' snk now repo branch"
  using assms by (simp add: check_repository_def get_latest_commits_def)

lemma attempted_append [simp]: "attempted (xs @ ys) = attempted xs @ attempted ys"
  by (simp add: attempted_def)

lemma attempted_concat: "attempted (concat xss) = concat (map attempted xss)"
  by (induction xss) (simp_all add: attempted_def)

lemma attempted_send:
  "attempted (send_commit_notification snk ch repo cs lang)
     = attempted (send_commit_notification snk' ch repo cs lang)"
  by (simp add: send_commit_notification_def attempted_def send_message_def)

lemma outcome_send:
  "a \<in> set (send_commit_notification snk ch repo cs lang) \<Longrightarrow>
     fst a = ch \<and> snd (snd a) = snk ch (fst (snd a))"
  by (auto simp: send_commit_notification_def send_message_def split: if_splits)

lemma get_user_language_log_commit [simp]:
  "get_user_language (log_commit now db c) ch = get_user_language db ch"
  by (simp add: get_user_language_def)

lemma get_repo_subscribers_log_commit [simp]:
  "get_repo_subscribers (log_commit now db c) r = get_repo_subscribers db r"
  by (simp add: get_repo_subscribers_def)

lemma process_new_commits_snd:
  "snd (process_new_commits db snk now repo cs)
     = (if cs = [] then []
        else concat (map (\<lambda>chat_id. send_commit_notification snk chat_id repo
                                       (sort_newest_first cs) (get_user_language db chat_id))
                         (get_repo_subscribers db repo)))"
proof (cases "sort_newest_first cs")
  case Nil
  then show ?thesis by (simp add: process_new_commits_def Let_def)
next
  case (Cons l rest)
  then have ne: "cs \<noteq> []" by auto
  with Cons show ?thesis
    by (simp add: process_new_commits_def Let_def)
qed

lemma check_repository_failed_fetch:
  assumes "\<forall>branch since. isl (rem repo branch since)"
  shows "check_repository db rem snk now repo branch = (db, [])"
proof -
  from assms have "isl (rem repo branch (Some (since_bound db now repo)))" by blast
  then have "get_latest_commits rem repo branch (Some (since_bound db now repo)) = []"
    by (cases "rem repo branch (Some (since_bound db now repo))")
       (simp_all add: get_latest_commits_def)
  then show ?thesis by (simp add: check_repository_def)
qed

lemma check_repositories_skip_failed:
  assumes "\<forall>branch since. isl (rem repo branch since)"
  shows "check_repositories db rem snk now repos
           = check_repositories db rem snk now (filter (\<lambda>(r, u, b). r \<noteq> repo) repos)"
proof (induction repos arbitrary: db)
  case Nil
  then show ?case by simp
next
  case (Cons x repos)
  obtain r u b where x: "x = (r, u, b)" by (cases x)
  show ?case
  proof (cases "r = repo")
    case True
    with Cons [of db] check_repository_failed_fetch [where rem = rem and repo = repo, OF assms, of db snk now b]
    show ?thesis by (simp add: x)
  next
    case False
    obtain db1 sent1 where c: "check_repository db rem snk now r b = (db1, sent1)"
      by (cases "check_repository db rem snk now r b")
    with False Cons [of db1] show ?thesis by (simp add: x)
  qed
qed

lemma check_repository_seen:
  assumes "is_commit_logged db R h"
  shows "(\<forall>c \<in> set (commits_notified (snd (check_repository db rem snk now repo branch))).
            \<not> (repo_full_name c = R \<and> sha c = h))
         \<and> is_commit_logged (fst (check_repository db rem snk now repo branch)) R h"
proof (intro conjI ballI)
  fix c
  assume "c \<in> set (commits_notified (snd (check_repository db rem snk now repo branch)))"
  with commits_notified_check
  have n: "c \<in> set (new_commits_of db repo
           (get_latest_commits rem repo branch (Some (since_bound db now repo))))"
    by blast
  then have "c \<in> set (get_latest_commits rem repo branch (Some (since_bound db now repo)))"
    and nl: "\<not> is_commit_logged db repo (sha c)"
    by (simp_all add: new_commits_of_def)
  then have "repo_full_name c = repo" by (simp add: get_latest_commits_repo)
  with nl assms show "\<not> (repo_full_name c = R \<and> sha c = h)" by auto
next
  from assms show "is_commit_logged (fst (check_repository db rem snk now repo branch)) R h"
    by (simp add: is_commit_logged_check)
qed

lemma check_repositories_seen:
  "is_commit_logged db R h \<Longrightarrow>
     (\<forall>c \<in> set (commits_notified (snd (check_repositories db rem snk now repos))).
        \<not> (repo_full_name c = R \<and> sha c = h))
     \<and> is_commit_logged (fst (check_repositories db rem snk now repos)) R h"
proof (induction repos arbitrary: db)
  case Nil
  then show ?case by simp
next
  case (Cons x repos)
  obtain r u b where x: "x = (r, u, b)" by (cases x)
  obtain db1 sent1 where c1: "check_repository db rem snk now r b = (db1, sent1)"
    by (cases "check_repository db rem snk now r b")
  obtain db2 sent2 where c2: "check_repositories db1 rem snk now repos = (db2, sent2)"
    by (cases "check_repositories db1 rem snk now repos")
  from check_repository_seen [OF Cons.prems, of rem snk now r b] c1
  have s1: "\<forall>c \<in> set (commits_notified sent1). \<not> (repo_full_name c = R \<and> sha c = h)"
    and l1: "is_commit_logged db1 R h" by simp_all
  from Cons.IH [OF l1] c2
  have s2: "\<forall>c \<in> set (commits_notified sent2). \<not> (repo_full_name c = R \<and> sha c = h)"
    and l2: "is_commit_logged db2 R h" by simp_all
  from s1 s2 l2 show ?case by (auto simp: x c1 c2)
qed

lemma later_sweeps_seen:
  "is_commit_logged db R h \<Longrightarrow>
     (\<forall>c \<in> set (commits_notified (snd (later_sweeps db sweeps))).
        \<not> (repo_full_name c = R \<and> sha c = h))
     \<and> is_commit_logged (fst (later_sweeps db sweeps)) R h"
proof (induction sweeps arbitrary: db)
  case Nil
  then show ?case by simp
next
  case (Cons x sweeps)
  obtain rem snk now where x: "x = (rem, snk, now)" by (cases x)
  obtain db1 sent1 where c1: "check_all_repositories db rem snk now = (db1, sent1)"
    by (cases "check_all_repositories db rem snk now")
  obtain db2 sent2 where c2: "later_sweeps db1 sweeps = (db2, sent2)"
    by (cases "later_sweeps db1 sweeps")
  from check_repositories_seen [OF Cons.prems, of rem snk now "get_all_monitored_repos db"] c1
  have s1: "\<forall>c \<in> set (commits_notified sent1). \<not> (repo_full_name c = R \<and> sha c = h)"
    and l1: "is_commit_logged db1 R h" by (simp_all add: check_all_repositories_def)
  from Cons.IH [OF l1] c2
  have s2: "\<forall>c \<in> set (commits_notified sent2). \<not> (repo_full_name c = R \<and> sha c = h)"
    and l2: "is_commit_logged db2 R h" by simp_all
  from s1 s2 l2 show ?case by (auto simp: x c1 c2)
qed

lemma handle_add_added:
  assumes "handle_add db admins repo_info_of rem now chat_id args = (db', RepoAdded)"
    and "repo = strip (args ! 1)"
    and "repo_info_of repo = Some (b, u)"
    and "get_latest_commits rem repo (case b of None \<Rightarrow> ''main'' | Some x \<Rightarrow> x) None = c # cs"
  shows "\<exists>db1. db' = log_commit now (update_last_commit db1 now repo (sha c) (date c)) c"
proof -
  obtain db0 language where l: "bot_get_user_language db chat_id = (db0, language)"
    by (cases "bot_get_user_language db chat_id")
  from assms l show ?thesis
    by (simp add: handle_add_def Let_def split: if_splits) blast
qed

section \<open>Claims\<close>

text \<open>
  C1. A commit that is in the commit history of a repository is not handed to the formatter
  by a detection pass over that repository, and it stays in the history. Every commit a pass
  notifies is in the history afterwards. So a second pass whose answer from the hosting API
  holds no hash the first answer did not hold sends nothing.
\<close>

theorem logged_commit_not_notified_again:
  "(is_commit_logged db repo h \<longrightarrow>
      h \<notin> sha ` set (commits_notified (snd (check_repository db rem snk now repo branch)))
      \<and> is_commit_logged (fst (check_repository db rem snk now repo branch)) repo h)
   \<and> (\<forall>c \<in> set (commits_notified (snd (check_repository db rem snk now repo branch))).
        is_commit_logged (fst (check_repository db rem snk now repo branch)) repo (sha c))
   \<and> (sha ` set (get_latest_commits rem2 repo branch2
                   (Some (since_bound (fst (check_repository db rem snk now repo branch))
                            now2 repo)))
        \<subseteq> sha ` set (get_latest_commits rem repo branch (Some (since_bound db now repo)))
      \<longrightarrow> snd (check_repository (fst (check_repository db rem snk now repo branch))
                 rem2 snk2 now2 repo branch2) = [])"
proof (intro conjI impI ballI)
  assume logged: "is_commit_logged db repo h"
  show "h \<notin> sha ` set (commits_notified (snd (check_repository db rem snk now repo branch)))"
  proof
    assume "h \<in> sha ` set (commits_notified (snd (check_repository db rem snk now repo branch)))"
    then obtain c where c: "c \<in> set (commits_notified (snd (check_repository db rem snk now repo branch)))"
      and h: "h = sha c" by blast
    from c commits_notified_check
    have "c \<in> set (new_commits_of db repo
             (get_latest_commits rem repo branch (Some (since_bound db now repo))))"
      by blast
    then have "\<not> is_commit_logged db repo (sha c)"
      by (simp add: new_commits_of_def)
    with logged h show False by simp
  qed
  from logged show "is_commit_logged (fst (check_repository db rem snk now repo branch)) repo h"
    by (simp add: is_commit_logged_check)
next
  fix c
  assume "c \<in> set (commits_notified (snd (check_repository db rem snk now repo branch)))"
  with commits_notified_check
  have "c \<in> set (new_commits_of db repo
           (get_latest_commits rem repo branch (Some (since_bound db now repo))))"
    by blast
  then have "c \<in> set (get_latest_commits rem repo branch (Some (since_bound db now repo)))"
    by (simp add: new_commits_of_def)
  then show "is_commit_logged (fst (check_repository db rem snk now repo branch)) repo (sha c)"
    by (rule fetched_logged_after_check)
next
  let ?db1 = "fst (check_repository db rem snk now repo branch)"
  assume sub: "sha ` set (get_latest_commits rem2 repo branch2 (Some (since_bound ?db1 now2 repo)))
        \<subseteq> sha ` set (get_latest_commits rem repo branch (Some (since_bound db now repo)))"
  have "\<forall>c \<in> set (get_latest_commits rem2 repo branch2 (Some (since_bound ?db1 now2 repo))).
          is_commit_logged ?db1 repo (sha c)"
  proof
    fix c
    assume "c \<in> set (get_latest_commits rem2 repo branch2 (Some (since_bound ?db1 now2 repo)))"
    with sub obtain c' where
      c': "c' \<in> set (get_latest_commits rem repo branch (Some (since_bound db now repo)))"
      and eq: "sha c = sha c'" by blast
    from fetched_logged_after_check [OF c', of snk] eq
    show "is_commit_logged ?db1 repo (sha c)" by simp
  qed
  then have "check_repository ?db1 rem2 snk2 now2 repo branch2 = (?db1, [])"
    by (rule check_repository_all_logged)
  then show "snd (check_repository ?db1 rem2 snk2 now2 repo branch2) = []" by simp
qed

theorem logged_commit_not_notified_again_witness:
  "is_commit_logged db_seen ''acme/widgets'' ''c1''
   \<and> ''c1'' \<notin> sha ` set (commits_notified (snd (check_repository db_seen
          (remote_example [raw_example ''c2'' 2000, raw_example ''c1'' 1000])
          sink_ok 4000 ''acme/widgets'' ''main'')))
   \<and> commits_notified (snd (check_repository db_seen
          (remote_example [raw_example ''c2'' 2000, raw_example ''c1'' 1000])
          sink_ok 4000 ''acme/widgets'' ''main'')) \<noteq> []
   \<and> snd (check_repository
            (fst (check_repository db_seen
                    (remote_example [raw_example ''c2'' 2000, raw_example ''c1'' 1000])
                    sink_ok 4000 ''acme/widgets'' ''main''))
            (remote_example [raw_example ''c1'' 1000, raw_example ''c2'' 2000])
            sink_ok 5000 ''acme/widgets'' ''main'') = []"
proof -
  let ?remA = "remote_example [raw_example ''c2'' 2000, raw_example ''c1'' 1000]"
  let ?remB = "remote_example [raw_example ''c1'' 1000, raw_example ''c2'' 2000]"
  let ?db1 = "fst (check_repository db_seen ?remA sink_ok 4000 ''acme/widgets'' ''main'')"
  have h1: "is_commit_logged db_seen ''acme/widgets'' ''c1''"
    by code_simp
  have h2: "commits_notified (snd (check_repository db_seen ?remA sink_ok 4000
              ''acme/widgets'' ''main'')) \<noteq> []"
    by code_simp
  have h3: "sha ` set (get_latest_commits ?remB ''acme/widgets'' ''main''
                         (Some (since_bound ?db1 5000 ''acme/widgets'')))
            \<subseteq> sha ` set (get_latest_commits ?remA ''acme/widgets'' ''main''
                         (Some (since_bound db_seen 4000 ''acme/widgets'')))"
    by code_simp
  from logged_commit_not_notified_again
         [of db_seen "''acme/widgets''" "''c1''" ?remA sink_ok 4000 "''main''" ?remB
             "''main''" 5000 sink_ok]
       h1 h2 h3
  show ?thesis by blast
qed

text \<open>
  C2. As stated the claim fails on ties: the sort is by date alone and stable, so of two
  commits with the same date the one the hosting API listed first becomes the watermark,
  whichever way their hashes compare.
\<close>

theorem watermark_tie_break_counterexample:
  "map r_last_commit_sha
     (rows_of (fst (process_new_commits db_example sink_ok 3000 ''acme/widgets''
                      [commit_example ''aaa'' 1000, commit_example ''bbb'' 1000]))
              ''acme/widgets'')
     = [Some ''aaa'', Some ''aaa'']
   \<and> map_option sha (newest_by_date_then_hash True
                       [commit_example ''aaa'' 1000, commit_example ''bbb'' 1000]) = Some ''bbb''
   \<and> map r_last_commit_sha
     (rows_of (fst (process_new_commits db_example sink_ok 3000 ''acme/widgets''
                      [commit_example ''bbb'' 1000, commit_example ''aaa'' 1000]))
              ''acme/widgets'')
     = [Some ''bbb'', Some ''bbb'']
   \<and> map_option sha (newest_by_date_then_hash False
                       [commit_example ''bbb'' 1000, commit_example ''aaa'' 1000]) = Some ''aaa''"
  by code_simp

text \<open>
  C2, amended. For every non-empty batch of newly detected commits, the watermark written
  to every row of the repository is a commit of the batch with the latest date, never an
  older one, in whatever order the hosting API returned the batch; among commits of that
  same latest date it is the one that comes first in the batch. The rows get its hash, its
  date and the time of the check.
\<close>

theorem watermark_is_first_newest:
  assumes "commits \<noteq> []"
  shows "\<exists>l. l \<in> set commits
            \<and> (\<forall>c \<in> set commits. date c \<le> date l)
            \<and> find (\<lambda>c. date c = date l) commits = Some l
            \<and> (\<forall>r \<in> set (rows_of (fst (process_new_commits db snk now repo commits)) repo).
                  r_last_commit_sha r = Some (sha l)
                  \<and> r_last_commit_date r = Some (date l)
                  \<and> r_last_check r = Some now)"
proof -
  from assms obtain l rest where s: "sort_newest_first commits = l # rest"
    by (cases "sort_newest_first commits") simp_all
  have rows: "rows_of (fst (process_new_commits db snk now repo commits)) repo
                = rows_of (update_last_commit db now repo (sha l) (date l)) repo"
    by (rule rows_of_cong) (rule repositories_process [OF s])
  have w: "\<forall>r \<in> set (rows_of (fst (process_new_commits db snk now repo commits)) repo).
             r_last_commit_sha r = Some (sha l)
             \<and> r_last_commit_date r = Some (date l)
             \<and> r_last_check r = Some now"
    unfolding rows by (intro ballI) (rule rows_of_update_last_commit)
  from sort_newest_first_head [OF s] w show ?thesis
    by blast
qed

theorem watermark_is_first_newest_witness:
  "[commit_example ''c1'' 1000, commit_example ''c3'' 3000, commit_example ''c2'' 2000] \<noteq> []
   \<and> (\<exists>l. l \<in> set [commit_example ''c1'' 1000, commit_example ''c3'' 3000,
                     commit_example ''c2'' 2000]
          \<and> (\<forall>r \<in> set (rows_of (fst (process_new_commits db_example sink_ok 5000
                                        ''acme/widgets''
                                        [commit_example ''c1'' 1000, commit_example ''c3'' 3000,
                                         commit_example ''c2'' 2000]))
                                 ''acme/widgets'').
                r_last_commit_sha r = Some (sha l)))
   \<and> map r_last_commit_sha
        (rows_of (fst (process_new_commits db_example sink_ok 5000 ''acme/widgets''
                         [commit_example ''c1'' 1000, commit_example ''c3'' 3000,
                          commit_example ''c2'' 2000]))
                 ''acme/widgets'')
     = [Some ''c3'', Some ''c3'']"
proof -
  have ne: "[commit_example ''c1'' 1000, commit_example ''c3'' 3000,
             commit_example ''c2'' 2000] \<noteq> []"
    by simp
  have rows: "map r_last_commit_sha
        (rows_of (fst (process_new_commits db_example sink_ok 5000 ''acme/widgets''
                         [commit_example ''c1'' 1000, commit_example ''c3'' 3000,
                          commit_example ''c2'' 2000]))
                 ''acme/widgets'')
     = [Some ''c3'', Some ''c3'']"
    by code_simp
  from watermark_is_first_newest [OF ne, of db_example sink_ok 5000 "''acme/widgets''"] rows
  show ?thesis by blast
qed

text \<open>
  C3. For one subscriber and a batch of N commits: with N above 5, five individual messages
  and one summary whose extra count is N - 5 are handed to the delivery channel; with N at
  most 5, N individual messages and no summary. Nothing else is sent, and all of it goes to
  that subscriber.
\<close>

theorem batch_cap_and_summary:
  "(length commits > 5 \<longrightarrow>
      length (commits_notified (send_commit_notification snk chat_id repo commits language)) = 5
      \<and> summaries_sent (send_commit_notification snk chat_id repo commits language)
          = [(repo, length commits, length commits - 5)])
   \<and> (length commits \<le> 5 \<longrightarrow>
      length (commits_notified (send_commit_notification snk chat_id repo commits language))
        = length commits
      \<and> summaries_sent (send_commit_notification snk chat_id repo commits language) = [])
   \<and> length (send_commit_notification snk chat_id repo commits language)
        = length (commits_notified (send_commit_notification snk chat_id repo commits language))
          + length (summaries_sent (send_commit_notification snk chat_id repo commits language))
   \<and> (\<forall>a \<in> set (send_commit_notification snk chat_id repo commits language). fst a = chat_id)"
proof -
  have "length (send_commit_notification snk chat_id repo commits language)
          = length (take 5 commits) + (if length commits > 5 then 1 else 0)"
    by (simp add: send_commit_notification_def)
  moreover have "\<forall>a \<in> set (send_commit_notification snk chat_id repo commits language).
                   fst a = chat_id"
    by (auto simp: send_commit_notification_def send_message_def)
  ultimately show ?thesis
    by (simp add: commits_notified_send_eq summaries_sent_send_eq)
qed

theorem batch_cap_and_summary_witness:
  "length seven_commits > 5
   \<and> length (commits_notified
        (send_commit_notification sink_ok 11 ''acme/widgets'' seven_commits (Some ''en''))) = 5
   \<and> summaries_sent
        (send_commit_notification sink_ok 11 ''acme/widgets'' seven_commits (Some ''en''))
       = [(''acme/widgets'', 7, 2)]
   \<and> length (take 3 seven_commits) \<le> 5
   \<and> length (commits_notified
        (send_commit_notification sink_ok 11 ''acme/widgets'' (take 3 seven_commits)
           (Some ''en''))) = 3
   \<and> summaries_sent
        (send_commit_notification sink_ok 11 ''acme/widgets'' (take 3 seven_commits)
           (Some ''en'')) = []"
proof -
  have l7: "length seven_commits = 7"
    by (simp add: seven_commits_def)
  from batch_cap_and_summary [of seven_commits sink_ok 11 "''acme/widgets''" "Some ''en''"]
       batch_cap_and_summary [of "take 3 seven_commits" sink_ok 11 "''acme/widgets''"
                                 "Some ''en''"]
       l7
  show ?thesis by simp
qed

text \<open>
  C4. While \<open>process_new_commits\<close> runs, the repositories table, and with it the watermark,
  stays as it was in every state but the last one; the last state is the one the function
  returns, and in it every commit of the batch is in the commit history and the rows of the
  repository carry the hash and date of the newest commit and the time of the check.
\<close>

theorem commits_logged_before_watermark:
  "last (process_new_commits_states db now repo commits)
     = fst (process_new_commits db snk now repo commits)
   \<and> (\<forall>s \<in> set (process_new_commits_states db now repo commits).
        repositories s = repositories db
        \<or> (s = fst (process_new_commits db snk now repo commits)
            \<and> (\<forall>c \<in> set commits. is_commit_logged s (repo_full_name c) (sha c))))
   \<and> (\<forall>l rest. sort_newest_first commits = l # rest \<longrightarrow>
        (\<forall>r \<in> set (rows_of (fst (process_new_commits db snk now repo commits)) repo).
           r_last_commit_sha r = Some (sha l) \<and> r_last_commit_date r = Some (date l)
           \<and> r_last_check r = Some now))"
proof -
  have final: "last (process_new_commits_states db now repo commits)
          = fst (process_new_commits db snk now repo commits)"
    by (rule last_states)
  have states: "\<forall>s \<in> set (process_new_commits_states db now repo commits).
        repositories s = repositories db
        \<or> (s = fst (process_new_commits db snk now repo commits)
            \<and> (\<forall>c \<in> set commits. is_commit_logged s (repo_full_name c) (sha c)))"
  proof
    fix s
    assume "s \<in> set (process_new_commits_states db now repo commits)"
    from states_cases [OF this]
    show "repositories s = repositories db
          \<or> (s = fst (process_new_commits db snk now repo commits)
              \<and> (\<forall>c \<in> set commits. is_commit_logged s (repo_full_name c) (sha c)))"
    proof
      assume "\<exists>k \<le> length commits.
                s = foldl (log_commit now) db (take k (sort_newest_first commits))"
      then have "repositories s = repositories db" by auto
      then show ?thesis ..
    next
      assume "\<exists>l rest. sort_newest_first commits = l # rest
                \<and> s = update_last_commit (foldl (log_commit now) db (sort_newest_first commits))
                        now repo (sha l) (date l)"
      then obtain l rest where srt: "sort_newest_first commits = l # rest"
        and s: "s = update_last_commit (foldl (log_commit now) db (sort_newest_first commits))
                      now repo (sha l) (date l)"
        by blast
      have fin: "s = fst (process_new_commits db snk now repo commits)"
        unfolding s process_new_commits_fst by (simp add: srt)
      have "\<forall>c \<in> set commits. is_commit_logged s (repo_full_name c) (sha c)"
        unfolding s by (auto simp: is_commit_logged_foldl)
      with fin show ?thesis by blast
    qed
  qed
  have mark: "\<forall>l rest. sort_newest_first commits = l # rest \<longrightarrow>
        (\<forall>r \<in> set (rows_of (fst (process_new_commits db snk now repo commits)) repo).
           r_last_commit_sha r = Some (sha l) \<and> r_last_commit_date r = Some (date l)
           \<and> r_last_check r = Some now)"
  proof (intro allI impI ballI)
    fix l rest r
    assume srt: "sort_newest_first commits = l # rest"
      and r: "r \<in> set (rows_of (fst (process_new_commits db snk now repo commits)) repo)"
    have "rows_of (fst (process_new_commits db snk now repo commits)) repo
            = rows_of (update_last_commit db now repo (sha l) (date l)) repo"
      by (rule rows_of_cong) (rule repositories_process [OF srt])
    with r have "r \<in> set (rows_of (update_last_commit db now repo (sha l) (date l)) repo)"
      by simp
    then show "r_last_commit_sha r = Some (sha l) \<and> r_last_commit_date r = Some (date l)
               \<and> r_last_check r = Some now"
      by (rule rows_of_update_last_commit)
  qed
  from final states mark show ?thesis by (intro conjI)
qed

theorem commits_logged_before_watermark_witness:
  "length (process_new_commits_states db_example 5000 ''acme/widgets''
             [commit_example ''c1'' 1000, commit_example ''c2'' 2000]) = 4
   \<and> map (\<lambda>s. (repositories s = repositories db_example,
                length (commit_history s)))
        (process_new_commits_states db_example 5000 ''acme/widgets''
           [commit_example ''c1'' 1000, commit_example ''c2'' 2000])
     = [(True, 0), (True, 1), (True, 2), (False, 2)]
   \<and> list_all (\<lambda>s. repositories s = repositories db_example
            \<or> (s = fst (process_new_commits db_example sink_ok 5000 ''acme/widgets''
                          [commit_example ''c1'' 1000, commit_example ''c2'' 2000])
                \<and> is_commit_logged s ''acme/widgets'' ''c1''
                \<and> is_commit_logged s ''acme/widgets'' ''c2''))
        (process_new_commits_states db_example 5000 ''acme/widgets''
           [commit_example ''c1'' 1000, commit_example ''c2'' 2000])
   \<and> map r_last_commit_sha
        (rows_of (fst (process_new_commits db_example sink_ok 5000 ''acme/widgets''
                         [commit_example ''c1'' 1000, commit_example ''c2'' 2000]))
                 ''acme/widgets'')
     = [Some ''c2'', Some ''c2'']"
proof -
  have a: "length (process_new_commits_states db_example 5000 ''acme/widgets''
             [commit_example ''c1'' 1000, commit_example ''c2'' 2000]) = 4"
    by code_simp
  have b: "map (\<lambda>s. (repositories s = repositories db_example,
                length (commit_history s)))
        (process_new_commits_states db_example 5000 ''acme/widgets''
           [commit_example ''c1'' 1000, commit_example ''c2'' 2000])
     = [(True, 0), (True, 1), (True, 2), (False, 2)]"
    by code_simp
  have c: "map r_last_commit_sha
        (rows_of (fst (process_new_commits db_example sink_ok 5000 ''acme/widgets''
                         [commit_example ''c1'' 1000, commit_example ''c2'' 2000]))
                 ''acme/widgets'')
     = [Some ''c2'', Some ''c2'']"
    by code_simp
  have d: "repo_full_name (commit_example ''c1'' 1000) = ''acme/widgets''"
          "repo_full_name (commit_example ''c2'' 2000) = ''acme/widgets''"
          "sha (commit_example ''c1'' 1000) = ''c1''" "sha (commit_example ''c2'' 2000) = ''c2''"
    by (simp_all add: commit_example_def)
  from commits_logged_before_watermark
         [of db_example 5000 "''acme/widgets''"
             "[commit_example ''c1'' 1000, commit_example ''c2'' 2000]" sink_ok]
  have "list_all (\<lambda>s. repositories s = repositories db_example
            \<or> (s = fst (process_new_commits db_example sink_ok 5000 ''acme/widgets''
                          [commit_example ''c1'' 1000, commit_example ''c2'' 2000])
                \<and> is_commit_logged s ''acme/widgets'' ''c1''
                \<and> is_commit_logged s ''acme/widgets'' ''c2''))
        (process_new_commits_states db_example 5000 ''acme/widgets''
           [commit_example ''c1'' 1000, commit_example ''c2'' 2000])"
    unfolding list_all_iff using d by auto
  with a b c show ?thesis by (intro conjI)
qed

text \<open>
  C5. For a repository with no stored last-known commit date, the commit-list request of
  the detection pass carries the bound "now minus 24 hours": the pass asks the hosting API
  for nothing else, and what it does depends on the answer to that one request only. When
  that answer honours the bound, no commit older than the bound is handed to the formatter.
\<close>

theorem first_check_uses_lookback_window:
  assumes "get_last_commit_date db repo = None"
  shows "since_bound db now repo = now - 24 * 3600
         \<and> (rem repo branch (Some (now - 24 * 3600)) = rem' repo branch (Some (now - 24 * 3600))
              \<longrightarrow> check_repository db rem snk now repo branch
                    = check_repository db rem' snk now repo branch)
         \<and> (honours_since rem repo branch (now - 24 * 3600)
              \<longrightarrow> (\<forall>c \<in> set (commits_notified
                                 (snd (check_repository db rem snk now repo branch))).
                       now - 24 * 3600 \<le> date c))"
proof -
  from assms have b: "since_bound db now repo = now - 24 * 3600"
    by (simp add: since_bound_def)
  have dep: "rem repo branch (Some (now - 24 * 3600)) = rem' repo branch (Some (now - 24 * 3600))
              \<longrightarrow> check_repository db rem snk now repo branch
                    = check_repository db rem' snk now repo branch"
    using check_repository_depends_on_answer [of rem repo branch db now rem' snk] b by simp
  have old: "honours_since rem repo branch (now - 24 * 3600)
              \<longrightarrow> (\<forall>c \<in> set (commits_notified
                                 (snd (check_repository db rem snk now repo branch))).
                       now - 24 * 3600 \<le> date c)"
  proof (intro impI ballI)
    fix c
    assume h: "honours_since rem repo branch (now - 24 * 3600)"
      and c: "c \<in> set (commits_notified (snd (check_repository db rem snk now repo branch)))"
    from c commits_notified_check
    have "c \<in> set (new_commits_of db repo
             (get_latest_commits rem repo branch (Some (since_bound db now repo))))"
      by blast
    then have "c \<in> set (get_latest_commits rem repo branch (Some (now - 24 * 3600)))"
      by (simp add: new_commits_of_def b)
    with h show "now - 24 * 3600 \<le> date c"
      by (simp add: honours_since_def list_all_iff)
  qed
  from b dep old show ?thesis by (intro conjI)
qed

theorem first_check_uses_lookback_window_witness:
  "get_last_commit_date db_example ''acme/widgets'' = None
   \<and> since_bound db_example 100000 ''acme/widgets'' = 13600
   \<and> honours_since (remote_since [raw_example ''new'' 90000, raw_example ''old'' 5000])
        ''acme/widgets'' ''main'' 13600
   \<and> map sha (commits_notified (snd (check_repository db_example
        (remote_since [raw_example ''new'' 90000, raw_example ''old'' 5000])
        sink_ok 100000 ''acme/widgets'' ''main''))) = [''new'', ''new'']
   \<and> list_all (\<lambda>c. 13600 \<le> date c)
        (commits_notified (snd (check_repository db_example
           (remote_since [raw_example ''new'' 90000, raw_example ''old'' 5000])
           sink_ok 100000 ''acme/widgets'' ''main'')))"
proof -
  let ?rem = "remote_since [raw_example ''new'' 90000, raw_example ''old'' 5000]"
  have a: "get_last_commit_date db_example ''acme/widgets'' = None"
    by code_simp
  have h: "honours_since ?rem ''acme/widgets'' ''main'' 13600"
    by code_simp
  have n: "map sha (commits_notified (snd (check_repository db_example ?rem
        sink_ok 100000 ''acme/widgets'' ''main''))) = [''new'', ''new'']"
    by code_simp
  from first_check_uses_lookback_window
         [OF a, of 100000 ?rem "''main''" ?rem sink_ok] h n a
  show ?thesis by (simp add: list_all_iff)
qed

text \<open>
  C6. A failing delivery changes neither the database, so the watermark written before the
  fan-out stays, nor what is attempted: the same messages are handed to the delivery channel
  for the same subscribers whatever the channel answers, each attempt has the outcome the
  channel gives for that subscriber and message alone, and every subscriber of the repository
  gets the attempts of its own fan-out.
\<close>

theorem delivery_failure_is_isolated:
  "fst (process_new_commits db snk now repo commits)
     = fst (process_new_commits db snk' now repo commits)
   \<and> attempted (snd (process_new_commits db snk now repo commits))
     = attempted (snd (process_new_commits db snk' now repo commits))
   \<and> (\<forall>a \<in> set (snd (process_new_commits db snk now repo commits)).
        snd (snd a) = snk (fst a) (fst (snd a)))
   \<and> (commits \<noteq> [] \<and> y \<in> set (get_repo_subscribers db repo) \<longrightarrow>
        set (send_commit_notification snk y repo (sort_newest_first commits)
               (get_user_language db y))
          \<subseteq> set (snd (process_new_commits db snk now repo commits)))"
proof -
  have st: "fst (process_new_commits db snk now repo commits)
              = fst (process_new_commits db snk' now repo commits)"
    by (simp add: process_new_commits_fst)
  have e: "\<And>ch lang. attempted (send_commit_notification snk ch repo
                           (sort_newest_first commits) lang)
                       = attempted (send_commit_notification snk' ch repo
                           (sort_newest_first commits) lang)"
    by (rule attempted_send)
  have att: "attempted (snd (process_new_commits db snk now repo commits))
               = attempted (snd (process_new_commits db snk' now repo commits))"
    by (simp add: process_new_commits_snd attempted_concat comp_def e)
  have out: "\<forall>a \<in> set (snd (process_new_commits db snk now repo commits)).
               snd (snd a) = snk (fst a) (fst (snd a))"
  proof
    fix a
    assume "a \<in> set (snd (process_new_commits db snk now repo commits))"
    then obtain ch where
      "a \<in> set (send_commit_notification snk ch repo (sort_newest_first commits)
                  (get_user_language db ch))"
      by (auto simp: process_new_commits_snd split: if_splits)
    from outcome_send [OF this] show "snd (snd a) = snk (fst a) (fst (snd a))" by simp
  qed
  have sub: "commits \<noteq> [] \<and> y \<in> set (get_repo_subscribers db repo) \<longrightarrow>
        set (send_commit_notification snk y repo (sort_newest_first commits)
               (get_user_language db y))
          \<subseteq> set (snd (process_new_commits db snk now repo commits))"
    by (auto simp: process_new_commits_snd)
  from st att out sub show ?thesis by (intro conjI)
qed

theorem delivery_failure_is_isolated_witness:
  "get_repo_subscribers db_example ''acme/widgets'' = [11, 22]
   \<and> map (\<lambda>(chat_id, m, delivered). (chat_id, delivered))
        (snd (process_new_commits db_example (sink_failing_for 11) 3000 ''acme/widgets''
                [commit_example ''c1'' 1000]))
     = [(11, False), (22, True)]
   \<and> fst (process_new_commits db_example (sink_failing_for 11) 3000 ''acme/widgets''
            [commit_example ''c1'' 1000])
     = fst (process_new_commits db_example sink_ok 3000 ''acme/widgets''
              [commit_example ''c1'' 1000])
   \<and> set (send_commit_notification (sink_failing_for 11) 22 ''acme/widgets''
             (sort_newest_first [commit_example ''c1'' 1000])
             (get_user_language db_example 22))
       \<subseteq> set (snd (process_new_commits db_example (sink_failing_for 11) 3000 ''acme/widgets''
                     [commit_example ''c1'' 1000]))"
proof -
  have s: "get_repo_subscribers db_example ''acme/widgets'' = [11, 22]"
    by code_simp
  have o: "map (\<lambda>(chat_id, m, delivered). (chat_id, delivered))
        (snd (process_new_commits db_example (sink_failing_for 11) 3000 ''acme/widgets''
                [commit_example ''c1'' 1000]))
     = [(11, False), (22, True)]"
    by code_simp
  have ne: "[commit_example ''c1'' 1000] \<noteq> []" by simp
  from s have y: "22 \<in> set (get_repo_subscribers db_example ''acme/widgets'')" by simp
  from delivery_failure_is_isolated
         [of db_example "sink_failing_for 11" 3000 "''acme/widgets''"
             "[commit_example ''c1'' 1000]" sink_ok 22]
       s o ne y
  show ?thesis by blast
qed

text \<open>
  C7. When the commit-list request for a repository fails, with whatever error, the
  detection step for that repository sends nothing and leaves the database, and so the
  stored watermark, exactly as it was; the sweep goes on, and its result is the result of
  the sweep over the other repositories alone.
\<close>

theorem failed_fetch_changes_nothing:
  assumes "\<forall>branch since. isl (rem repo branch since)"
  shows "check_repository db rem snk now repo branch = (db, [])
         \<and> check_repositories db rem snk now repos
           = check_repositories db rem snk now (filter (\<lambda>(r, u, b). r \<noteq> repo) repos)
         \<and> check_all_repositories db rem snk now
           = check_repositories db rem snk now
               (filter (\<lambda>(r, u, b). r \<noteq> repo) (get_all_monitored_repos db))"
  using check_repository_failed_fetch [where rem = rem and repo = repo, OF assms]
    check_repositories_skip_failed [where rem = rem and repo = repo, OF assms]
  by (simp add: check_all_repositories_def)

theorem failed_fetch_changes_nothing_witness:
  "(\<forall>branch since. isl (remote_example [raw_example ''c1'' 1000] ''acme/broken'' branch since))
   \<and> map fst (get_all_monitored_repos db_two) = [''acme/broken'', ''acme/widgets'']
   \<and> check_repository db_two (remote_example [raw_example ''c1'' 1000]) sink_ok 3000
        ''acme/broken'' ''main'' = (db_two, [])
   \<and> map r_last_commit_sha
        (rows_of (fst (check_all_repositories db_two (remote_example [raw_example ''c1'' 1000])
                         sink_ok 3000)) ''acme/widgets'')
     = [Some ''c1'', Some ''c1'']
   \<and> map r_last_commit_sha
        (rows_of (fst (check_all_repositories db_two (remote_example [raw_example ''c1'' 1000])
                         sink_ok 3000)) ''acme/broken'')
     = [None]"
proof -
  have f: "\<forall>branch since.
             isl (remote_example [raw_example ''c1'' 1000] ''acme/broken'' branch since)"
    by (simp add: remote_example_def)
  have m: "map fst (get_all_monitored_repos db_two) = [''acme/broken'', ''acme/widgets'']"
    by code_simp
  have w: "map r_last_commit_sha
        (rows_of (fst (check_all_repositories db_two (remote_example [raw_example ''c1'' 1000])
                         sink_ok 3000)) ''acme/widgets'')
     = [Some ''c1'', Some ''c1'']"
    by code_simp
  have b: "map r_last_commit_sha
        (rows_of (fst (check_all_repositories db_two (remote_example [raw_example ''c1'' 1000])
                         sink_ok 3000)) ''acme/broken'')
     = [None]"
    by code_simp
  from failed_fetch_changes_nothing
         [where rem = "remote_example [raw_example ''c1'' 1000]" and repo = "''acme/broken''",
          OF f, of db_two sink_ok 3000 "''main''"] f m w b
  show ?thesis by blast
qed

text \<open>
  C8. As stated the claim fails: \<open>log_commit\<close> is a plain INSERT into a table whose only key
  is the row id, so recording a commit twice leaves two rows for it.
\<close>

theorem log_commit_twice_counterexample:
  "commit_history (log_commit 20 (log_commit 10 init_db (commit_example ''c1'' 1000))
                     (commit_example ''c1'' 1000))
     \<noteq> commit_history (log_commit 10 init_db (commit_example ''c1'' 1000))
   \<and> length (filter (\<lambda>h. h_repo_full_name h = ''acme/widgets'' \<and> h_commit_sha h = ''c1'')
        (commit_history (log_commit 20 (log_commit 10 init_db (commit_example ''c1'' 1000))
                           (commit_example ''c1'' 1000)))) = 2"
  by (simp add: log_commit_def init_db_def commit_example_def Let_def)

text \<open>
  C8, amended. Every call of \<open>log_commit\<close> appends one row, also for a commit that is already
  recorded; what is the same after recording a commit once and twice is the seen-set, that
  is, the answer of \<open>is_commit_logged\<close> for every repository and hash.
\<close>

theorem log_commit_appends_and_seen_set_idempotent:
  "length (commit_history (log_commit now2 (log_commit now1 db c) c))
     = length (commit_history db) + 2
   \<and> is_commit_logged (log_commit now2 (log_commit now1 db c) c) repo h
     = is_commit_logged (log_commit now1 db c) repo h
   \<and> is_commit_logged (log_commit now1 db c) (repo_full_name c) (sha c)"
  by (auto simp: is_commit_logged_log_commit) (simp add: log_commit_def Let_def)

theorem log_commit_appends_and_seen_set_idempotent_witness:
  "length (commit_history (log_commit 20 (log_commit 10 init_db (commit_example ''c1'' 1000))
                             (commit_example ''c1'' 1000))) = 2
   \<and> is_commit_logged (log_commit 20 (log_commit 10 init_db (commit_example ''c1'' 1000))
                         (commit_example ''c1'' 1000)) ''acme/widgets'' ''c1''"
proof -
  have "repo_full_name (commit_example ''c1'' 1000) = ''acme/widgets''"
       "sha (commit_example ''c1'' 1000) = ''c1''"
       "length (commit_history init_db) = 0"
    by (simp_all add: commit_example_def init_db_def)
  with log_commit_appends_and_seen_set_idempotent
         [of 20 10 init_db "commit_example ''c1'' 1000" "''acme/widgets''" "''c1''"]
  show ?thesis by simp
qed

text \<open>
  C9. As stated the claim fails: the table is keyed by subscriber and repository, so a
  repository with two subscribers has two rows, each with its own watermark columns, and a
  row added later starts without a watermark while the older rows keep theirs.
\<close>

theorem one_row_per_repository_counterexample:
  "length (rows_of db_example ''acme/widgets'') = 2
   \<and> map r_last_commit_sha
        (rows_of (add_repository (update_last_commit db_example 10 ''acme/widgets'' ''c1'' 1000)
                    20 33 ''acme/widgets'' ''https://github.com/acme/widgets'' ''main'')
                 ''acme/widgets'')
     = [Some ''c1'', Some ''c1'', None]"
  by code_simp

text \<open>
  C9, amended. There is at most one row for each pair of subscriber and repository, and
  \<open>add_repository\<close> keeps it so. It leaves every row of another subscriber or another
  repository as it is, last-known hash and date included, and the row it writes for the adding
  subscriber has no last-known commit.
\<close>

theorem add_repository_keeps_other_rows:
  "(distinct (map row_key (repositories db)) \<longrightarrow>
      distinct (map row_key (repositories (add_repository db now chat_id repo repo_url branch))))
   \<and> filter (\<lambda>r. row_key r \<noteq> (chat_id, repo))
        (repositories (add_repository db now chat_id repo repo_url branch))
     = filter (\<lambda>r. row_key r \<noteq> (chat_id, repo)) (repositories db)
   \<and> map (\<lambda>r. (r_last_commit_sha r, r_last_commit_date r))
        (filter (\<lambda>r. row_key r = (chat_id, repo))
           (repositories (add_repository db now chat_id repo repo_url branch)))
     = [(None, None)]"
proof (intro conjI impI)
  let ?P = "\<lambda>r. \<not> (r_chat_id r = chat_id \<and> r_repo_full_name r = repo)"
  assume d: "distinct (map row_key (repositories db))"
  have "(chat_id, repo) \<notin> row_key ` set (filter ?P (repositories db))"
    by (auto simp: row_key_def)
  with distinct_map_filter_keys [OF d, of ?P]
  show "distinct (map row_key (repositories (add_repository db now chat_id repo repo_url branch)))"
    by (simp add: add_repository_rows row_key_def)
next
  show "filter (\<lambda>r. row_key r \<noteq> (chat_id, repo))
          (repositories (add_repository db now chat_id repo repo_url branch))
        = filter (\<lambda>r. row_key r \<noteq> (chat_id, repo)) (repositories db)"
    by (simp add: add_repository_rows row_key_def)
next
  show "map (\<lambda>r. (r_last_commit_sha r, r_last_commit_date r))
          (filter (\<lambda>r. row_key r = (chat_id, repo))
             (repositories (add_repository db now chat_id repo repo_url branch)))
        = [(None, None)]"
    by (simp add: add_repository_rows row_key_def)
qed

theorem add_repository_keeps_other_rows_witness:
  "distinct (map row_key (repositories db_example))
   \<and> distinct (map row_key (repositories
        (add_repository db_example 50 11 ''acme/widgets'' ''https://github.com/acme/widgets''
           ''main'')))
   \<and> filter (\<lambda>r. row_key r \<noteq> (11, ''acme/widgets''))
        (repositories (add_repository db_example 50 11 ''acme/widgets''
           ''https://github.com/acme/widgets'' ''main''))
     = filter (\<lambda>r. row_key r \<noteq> (11, ''acme/widgets'')) (repositories db_example)"
proof -
  have d: "distinct (map row_key (repositories db_example))"
    by code_simp
  from add_repository_keeps_other_rows
         [of db_example 50 11 "''acme/widgets''" "''https://github.com/acme/widgets''" "''main''"]
       d
  show ?thesis by blast
qed

text \<open>
  C10. When \<open>handle_add\<close> adds a repository and the hosting API answers the commit-list
  request with at least one commit, the first commit of the answer is in the commit history
  afterwards and its hash and date are the watermark of every row of the repository; no
  sweep that follows, whatever the hosting API answers then, hands that commit to the
  formatter. The hosting API lists the newest commit, the head of the branch, first: in an
  answer ordered newest first no commit has a later date than the first one.
\<close>

theorem head_commit_seen_at_add:
  assumes "handle_add db admins repo_info_of rem now chat_id args = (db', RepoAdded)"
    and "repo = strip (args ! 1)"
    and "repo_info_of repo = Some (b, u)"
    and "get_latest_commits rem repo (case b of None \<Rightarrow> ''main'' | Some x \<Rightarrow> x) None = c # cs"
  shows "is_commit_logged db' repo (sha c)
         \<and> (\<forall>r \<in> set (rows_of db' repo).
               r_last_commit_sha r = Some (sha c) \<and> r_last_commit_date r = Some (date c))
         \<and> (\<forall>c' \<in> set (commits_notified (snd (later_sweeps db' sweeps))).
               \<not> (repo_full_name c' = repo \<and> sha c' = sha c))
         \<and> (sorted_wrt (\<lambda>x y. date y \<le> date x) (c # cs) \<longrightarrow>
               (\<forall>x \<in> set (c # cs). date x \<le> date c))"
proof -
  have newest: "sorted_wrt (\<lambda>x y. date y \<le> date x) (c # cs) \<longrightarrow>
               (\<forall>x \<in> set (c # cs). date x \<le> date c)"
    by auto
  from handle_add_added [OF assms] obtain db1 where
    db': "db' = log_commit now (update_last_commit db1 now repo (sha c) (date c)) c"
    by blast
  have "c \<in> set (get_latest_commits rem repo (case b of None \<Rightarrow> ''main'' | Some x \<Rightarrow> x) None)"
    using assms(4) by simp
  then have name: "repo_full_name c = repo"
    by (rule get_latest_commits_repo)
  then have logged: "is_commit_logged db' repo (sha c)"
    by (simp add: db' is_commit_logged_log_commit)
  have "rows_of db' repo = rows_of (update_last_commit db1 now repo (sha c) (date c)) repo"
    by (rule rows_of_cong) (simp add: db')
  then have mark: "\<forall>r \<in> set (rows_of db' repo).
               r_last_commit_sha r = Some (sha c) \<and> r_last_commit_date r = Some (date c)"
    using rows_of_update_last_commit [of _ db1 now repo "sha c" "date c"] by simp
  from later_sweeps_seen [OF logged, of sweeps]
  have later: "\<forall>c' \<in> set (commits_notified (snd (later_sweeps db' sweeps))).
               \<not> (repo_full_name c' = repo \<and> sha c' = sha c)"
    by blast
  from logged mark later newest show ?thesis by (intro conjI)
qed

theorem head_commit_seen_at_add_witness:
  "handle_add init_db [11] repo_info_example
     (remote_since [raw_example ''c2'' 2000, raw_example ''c1'' 1000]) 3000 11
     [''/add'', ''acme/widgets''] = (db_added, RepoAdded)
   \<and> map sha (get_latest_commits
                 (remote_since [raw_example ''c2'' 2000, raw_example ''c1'' 1000])
                 ''acme/widgets'' ''main'' None) = [''c2'', ''c1'']
   \<and> sorted_wrt (\<lambda>x y. date y \<le> date x)
        (get_latest_commits (remote_since [raw_example ''c2'' 2000, raw_example ''c1'' 1000])
           ''acme/widgets'' ''main'' None)
   \<and> is_commit_logged db_added ''acme/widgets'' ''c2''
   \<and> map (\<lambda>r. (r_last_commit_sha r, r_last_commit_date r)) (rows_of db_added ''acme/widgets'')
     = [(Some ''c2'', Some 2000)]
   \<and> map sha (commits_notified (snd (later_sweeps db_added
        [(remote_since [raw_example ''c2'' 2000, raw_example ''c1'' 1000], sink_ok, 4000),
         (remote_since [raw_example ''c3'' 4500, raw_example ''c2'' 2000,
                        raw_example ''c1'' 1000], sink_ok, 5000)])))
     = [''c3'']
   \<and> list_all (\<lambda>c'. \<not> (repo_full_name c' = ''acme/widgets'' \<and> sha c' = ''c2''))
        (commits_notified (snd (later_sweeps db_added
          [(remote_since [raw_example ''c2'' 2000, raw_example ''c1'' 1000], sink_ok, 4000),
           (remote_since [raw_example ''c3'' 4500, raw_example ''c2'' 2000,
                          raw_example ''c1'' 1000], sink_ok, 5000)])))"
proof -
  let ?rem = "remote_since [raw_example ''c2'' 2000, raw_example ''c1'' 1000]"
  let ?sweeps = "[(?rem, sink_ok, 4000),
         (remote_since [raw_example ''c3'' 4500, raw_example ''c2'' 2000,
                        raw_example ''c1'' 1000], sink_ok, 5000)]"
  let ?c = "the (parse_commit ''acme/widgets'' (raw_example ''c2'' 2000))"
  let ?cs = "[the (parse_commit ''acme/widgets'' (raw_example ''c1'' 1000))]"
  have o: "snd (handle_add init_db [11] repo_info_example ?rem 3000 11
                  [''/add'', ''acme/widgets'']) = RepoAdded"
    by code_simp
  then have h: "handle_add init_db [11] repo_info_example ?rem 3000 11
                  [''/add'', ''acme/widgets''] = (db_added, RepoAdded)"
    unfolding db_added_def
    by (cases "handle_add init_db [11] repo_info_example ?rem 3000 11
                 [''/add'', ''acme/widgets'']") simp
  have r: "''acme/widgets'' = strip ([''/add'', ''acme/widgets''] ! 1)"
    by code_simp
  have i: "repo_info_example ''acme/widgets''
             = Some (Some ''main'', ''https://github.com/acme/widgets'')"
    by (simp add: repo_info_example_def)
  have g: "get_latest_commits ?rem ''acme/widgets''
             (case Some ''main'' of None \<Rightarrow> ''main'' | Some x \<Rightarrow> x) None = ?c # ?cs"
    by (simp add: get_latest_commits_def remote_since_def raw_example_def parse_commit_def)
  have sc: "sha ?c = ''c2''" "date ?c = 2000"
    by (simp_all add: parse_commit_def raw_example_def)
  have m: "map sha (get_latest_commits ?rem ''acme/widgets'' ''main'' None) = [''c2'', ''c1'']"
    by code_simp
  have n: "map sha (commits_notified (snd (later_sweeps db_added ?sweeps))) = [''c3'']"
    by code_simp
  have k: "map (\<lambda>r. (r_last_commit_sha r, r_last_commit_date r))
             (rows_of db_added ''acme/widgets'') = [(Some ''c2'', Some 2000)]"
    by code_simp
  from head_commit_seen_at_add [OF h r i g, of ?sweeps] sc
  have "is_commit_logged db_added ''acme/widgets'' ''c2''"
    and "list_all (\<lambda>c'. \<not> (repo_full_name c' = ''acme/widgets'' \<and> sha c' = ''c2''))
           (commits_notified (snd (later_sweeps db_added ?sweeps)))"
    by (simp_all add: list_all_iff)
  moreover have "sorted_wrt (\<lambda>x y. date y \<le> date x)
        (get_latest_commits ?rem ''acme/widgets'' ''main'' None)"
    by code_simp
  ultimately show ?thesis using h m n k by (intro conjI)
qed

end
